theory Spec2Isabelle
  imports Main
begin

section \<open>Data model (useTasks.tsx, lines 6-24)\<close>

text \<open>
  Timestamps are the strings produced by \<^verbatim>\<open>new Date().toISOString()\<close> and by the server.
  They have one fixed format whose lexicographic order is the chronological order, so a
  timestamp is modelled by the instant it denotes (milliseconds, a natural number).
\<close>

type_synonym timestamp = nat

datatype sync_status = Pending | Synced | SyncError

text \<open>
  \<^verbatim>\<open>interface Task\<close> and \<^verbatim>\<open>interface LocalTask extends Omit<Task, 'user_id'>\<close>: the
  fields the two share are the base record, \<open>Task\<close> adds \<open>user_id\<close> and \<open>LocalTask\<close> adds
  \<open>sync_status\<close>. The field \<^verbatim>\<open>id\<close> is called \<open>task_id\<close> here.
\<close>

record task_fields =
  task_id :: string
  title :: string
  description :: "string option"
  completed :: bool
  created_at :: timestamp
  updated_at :: timestamp
  is_deleted :: bool
  server_id :: "string option"
  last_synced_at :: "timestamp option"

record Task = task_fields +
  user_id :: string

record LocalTask = task_fields +
  sync_status :: sync_status

text \<open>\<^verbatim>\<open>{...t, user_id: user.id}\<close> at type \<open>Task\<close>.\<close>

definition toTask :: "string \<Rightarrow> LocalTask \<Rightarrow> Task" where
  "toTask uid t =
     \<lparr>task_id = task_id t, title = title t, description = description t,
      completed = completed t, created_at = created_at t, updated_at = updated_at t,
      is_deleted = is_deleted t, server_id = server_id t,
      last_synced_at = last_synced_at t, user_id = uid\<rparr>"

text \<open>\<^verbatim>\<open>{...task, sync_status: st}\<close> at type \<open>LocalTask\<close>.\<close>

definition toLocal :: "sync_status \<Rightarrow> Task \<Rightarrow> LocalTask" where
  "toLocal st t =
     \<lparr>task_id = task_id t, title = title t, description = description t,
      completed = completed t, created_at = created_at t, updated_at = updated_at t,
      is_deleted = is_deleted t, server_id = server_id t,
      last_synced_at = last_synced_at t, sync_status = st\<rparr>"

text \<open>
  \<^verbatim>\<open>Partial<Pick<Task, 'title' | 'description' | 'completed'>>\<close>: each key is present or
  not; the spread \<^verbatim>\<open>{...t, ...updates}\<close> overrides the keys that are present.
\<close>

record updates =
  new_title :: "string option"
  new_description :: "string option option"
  new_completed :: "bool option"

definition applyUpdates :: "updates \<Rightarrow> 'a task_fields_scheme \<Rightarrow> 'a task_fields_scheme" where
  "applyUpdates u t =
     t\<lparr>title := (case new_title u of None \<Rightarrow> title t | Some x \<Rightarrow> x),
       description := (case new_description u of None \<Rightarrow> description t | Some x \<Rightarrow> x),
       completed := (case new_completed u of None \<Rightarrow> completed t | Some x \<Rightarrow> x)\<rparr>"

text \<open>JavaScript truthiness of a \<^verbatim>\<open>string | null | undefined\<close>: the empty string is falsy.\<close>

definition truthy :: "string option \<Rightarrow> bool" where
  "truthy v = (case v of None \<Rightarrow> False | Some x \<Rightarrow> x \<noteq> [])"

text \<open>\<^verbatim>\<open>v || d\<close> for a \<^verbatim>\<open>string | null\<close> \<open>v\<close> and a string \<open>d\<close>.\<close>

definition orElse :: "string option \<Rightarrow> string \<Rightarrow> string" where
  "orElse v d = (case v of None \<Rightarrow> d | Some x \<Rightarrow> if x = [] then d else x)"

text \<open>\<^verbatim>\<open>Array.prototype.findIndex\<close>; \<open>None\<close> is the result \<^verbatim>\<open>-1\<close>.\<close>

fun findIndex :: "('a \<Rightarrow> bool) \<Rightarrow> 'a list \<Rightarrow> nat option" where
  "findIndex P [] = None"
| "findIndex P (x # xs) = (if P x then Some 0 else map_option Suc (findIndex P xs))"

text \<open>\<^verbatim>\<open>xs.filter((_, i) => i !== k)\<close>.\<close>

definition removeAt :: "nat \<Rightarrow> 'a list \<Rightarrow> 'a list" where
  "removeAt k xs = take k xs @ drop (Suc k) xs"

section \<open>The remote service and the hook's state\<close>

text \<open>
  The supabase client is an external collaborator. A request either throws (\<open>Threw\<close>,
  with the message) or resolves to \<^verbatim>\<open>{ data, error }\<close>, each of which may be null. Every
  request the hook issues is appended to the trace \<open>calls\<close>.
\<close>

datatype 'a response = Threw string | Response "'a option" "string option"

datatype request =
    SelectTasks
  | InsertTask string "string option" string
  | InsertPending string "string option" bool string
  | UpdateTask string updates
  | UpdatePending string string "string option" bool
  | SoftDelete string

text \<open>
  The toasts shown to the user. The two template strings of \<^verbatim>\<open>syncTasks\<close>,
  \<^verbatim>\<open>Synced ${syncedCount} task(s)\<close> and \<^verbatim>\<open>${errorCount} task(s) failed to sync\<close>, are
  kept as the count they print.
\<close>

datatype toast =
    Info string
  | Success string
  | Failure string
  | SyncedToast nat
  | FailedToast nat

text \<open>
  The state the hook reads and writes: the signed-in user's id, the connectivity flag,
  the two \<^verbatim>\<open>localStorage\<close> keys (\<open>store\<close> is \<^verbatim>\<open>offline_tasks\<close>, an absent key being the
  empty list), the React state, and the two traces.
\<close>

record state =
  user :: "string option"
  isOnline :: bool
  store :: "LocalTask list"
  last_sync_timestamp :: "timestamp option"
  tasks :: "Task list"
  loading :: bool
  pendingSyncCount :: nat
  lastSyncTime :: "timestamp option"
  calls :: "request list"
  toasts :: "toast list"

definition request :: "request \<Rightarrow> state \<Rightarrow> state" where
  "request r s = s\<lparr>calls := calls s @ [r]\<rparr>"

definition toast :: "toast \<Rightarrow> state \<Rightarrow> state" where
  "toast t s = s\<lparr>toasts := toasts s @ [t]\<rparr>"

section \<open>The local store (lines 50-61)\<close>

definition loadLocalTasks :: "state \<Rightarrow> LocalTask list" where
  "loadLocalTasks s = store s"

definition saveLocalTasks :: "LocalTask list \<Rightarrow> state \<Rightarrow> state" where
  "saveLocalTasks localTasks s =
     s\<lparr>store := localTasks,
       pendingSyncCount :=
         length (filter (\<lambda>t. sync_status t = Pending \<and> \<not> is_deleted t) localTasks)\<rparr>"

section \<open>Pull: fetchTasks (lines 64-99)\<close>

text \<open>
  What the \<^verbatim>\<open>try\<close> block of \<^verbatim>\<open>fetchTasks\<close> gets: the thrown value or the \<^verbatim>\<open>error\<close> that
  is rethrown (\<open>Inl\<close>), or \<^verbatim>\<open>data || []\<close>.
\<close>

definition fetched :: "Task list response \<Rightarrow> string + Task list" where
  "fetched resp =
     (case resp of
        Threw e \<Rightarrow> Inl e
      | Response d err \<Rightarrow>
          (case err of
             Some e \<Rightarrow> Inl e
           | None \<Rightarrow> Inr (case d of None \<Rightarrow> [] | Some rows \<Rightarrow> rows)))"

definition fetchTasks :: "Task list response \<Rightarrow> timestamp \<Rightarrow> state \<Rightarrow> state" where
  "fetchTasks resp now s =
     (case user s of
        None \<Rightarrow> s
      | Some uid \<Rightarrow>
          (let s0 = request SelectTasks s in
           case fetched resp of
             Inr rows \<Rightarrow>
               (let s1 = s0\<lparr>tasks := rows\<rparr>;
                    s2 = saveLocalTasks (map (toLocal Synced) rows) s1
                in s2\<lparr>lastSyncTime := Some now, last_sync_timestamp := Some now,
                      loading := False\<rparr>)
           | Inl e \<Rightarrow>
               s0\<lparr>tasks := map (toTask uid) (filter (\<lambda>t. \<not> is_deleted t) (loadLocalTasks s0)),
                  loading := False\<rparr>))"

section \<open>User mutations: createTask, updateTask, deleteTask (lines 136-278)\<close>

text \<open>
  \<^verbatim>\<open>if (error) throw error\<close> followed by \<^verbatim>\<open>data.id\<close>, which throws a TypeError when
  \<^verbatim>\<open>data\<close> is null.
\<close>

definition inserted :: "Task response \<Rightarrow> string + Task" where
  "inserted resp =
     (case resp of
        Threw e \<Rightarrow> Inl e
      | Response d err \<Rightarrow>
          (case err of
             Some e \<Rightarrow> Inl e
           | None \<Rightarrow> (case d of None \<Rightarrow> Inl ''TypeError'' | Some row \<Rightarrow> Inr row)))"

text \<open>\<^verbatim>\<open>const { error } = await ...; if (error) throw error\<close>: the error, if any.\<close>

definition failed :: "'a response \<Rightarrow> string option" where
  "failed resp = (case resp of Threw e \<Rightarrow> Some e | Response d err \<Rightarrow> err)"

text \<open>
  The arguments \<open>uuid\<close> and the timestamps are the results of \<^verbatim>\<open>crypto.randomUUID()\<close> and
  of the calls of \<^verbatim>\<open>new Date().toISOString()\<close>, in the order the code makes them; \<open>resp\<close>
  is what the request gets, read only when the request is made.
\<close>

definition createTask ::
  "string \<Rightarrow> string option \<Rightarrow> string \<Rightarrow> timestamp \<Rightarrow> timestamp \<Rightarrow> timestamp \<Rightarrow>
   Task response \<Rightarrow> state \<Rightarrow> state" where
  "createTask ttl desc uuid t_created t_updated t_synced resp s =
     (case user s of
        None \<Rightarrow> s
      | Some uid \<Rightarrow>
          (let newTask =
                 \<lparr>task_id = uuid, title = ttl,
                  description = (if truthy desc then desc else None),
                  completed = False, created_at = t_created, updated_at = t_updated,
                  is_deleted = False, server_id = None, last_synced_at = None,
                  sync_status = Pending\<rparr>;
               localTasks = loadLocalTasks s @ [newTask];
               s1 = saveLocalTasks localTasks s;
               s2 = s1\<lparr>tasks := toTask uid newTask # tasks s1\<rparr>
           in if isOnline s2 then
                (let s3 = request (InsertTask ttl desc uid) s2 in
                 case inserted resp of
                   Inr row \<Rightarrow>
                     toast (Success ''Task created'')
                       (saveLocalTasks
                          (map (\<lambda>t. if task_id t = task_id newTask
                                     then t\<lparr>server_id := Some (task_id row),
                                            sync_status := Synced,
                                            last_synced_at := Some t_synced\<rparr>
                                     else t) localTasks) s3)
                 | Inl e \<Rightarrow> toast (Failure ''Task saved offline. Will sync when online.'') s3)
              else toast (Info ''Task saved offline. Will sync when online.'') s2))"

definition updateTask ::
  "string \<Rightarrow> updates \<Rightarrow> timestamp \<Rightarrow> timestamp \<Rightarrow> unit response \<Rightarrow> state \<Rightarrow> state" where
  "updateTask i upd now t_synced resp s =
     (case user s of
        None \<Rightarrow> s
      | Some uid \<Rightarrow>
          (let localTasks = loadLocalTasks s in
           case findIndex (\<lambda>t. task_id t = i \<or> server_id t = Some i) localTasks of
             None \<Rightarrow> s
           | Some taskIndex \<Rightarrow>
               (let updatedTask =
                      (applyUpdates upd (localTasks ! taskIndex))
                        \<lparr>updated_at := now, sync_status := Pending\<rparr>;
                    localTasks1 = localTasks[taskIndex := updatedTask];
                    s1 = saveLocalTasks localTasks1 s;
                    s2 = s1\<lparr>tasks :=
                           map (\<lambda>t. if task_id t = i \<or> server_id t = Some i
                                    then (applyUpdates upd t)\<lparr>updated_at := updated_at updatedTask\<rparr>
                                    else t) (tasks s1)\<rparr>
                in if isOnline s2 then
                     (let serverId = orElse (server_id (localTasks1 ! taskIndex)) i;
                          s3 = request (UpdateTask serverId upd) s2
                      in case failed resp of
                           None \<Rightarrow>
                             toast (Success ''Task updated'')
                               (saveLocalTasks
                                  (localTasks1[taskIndex :=
                                     updatedTask\<lparr>sync_status := Synced,
                                                 last_synced_at := Some t_synced\<rparr>]) s3)
                         | Some e \<Rightarrow>
                             toast (Failure ''Update saved offline. Will sync when online.'') s3)
                   else toast (Info ''Update saved offline. Will sync when online.'') s2)))"

definition deleteTask :: "string \<Rightarrow> timestamp \<Rightarrow> unit response \<Rightarrow> state \<Rightarrow> state" where
  "deleteTask i now resp s =
     (case user s of
        None \<Rightarrow> s
      | Some uid \<Rightarrow>
          (let localTasks = loadLocalTasks s in
           case findIndex (\<lambda>t. task_id t = i \<or> server_id t = Some i) localTasks of
             None \<Rightarrow> s
           | Some taskIndex \<Rightarrow>
               (let localTasks1 =
                      localTasks[taskIndex :=
                        (localTasks ! taskIndex)
                          \<lparr>is_deleted := True, updated_at := now, sync_status := Pending\<rparr>];
                    s1 = saveLocalTasks localTasks1 s;
                    s2 = s1\<lparr>tasks :=
                           filter (\<lambda>t. task_id t \<noteq> i \<and> server_id t \<noteq> Some i) (tasks s1)\<rparr>
                in if isOnline s2 then
                     (let serverId = orElse (server_id (localTasks1 ! taskIndex)) i;
                          s3 = request (SoftDelete serverId) s2
                      in case failed resp of
                           None \<Rightarrow>
                             toast (Success ''Task deleted'')
                               (saveLocalTasks (removeAt taskIndex localTasks1) s3)
                         | Some e \<Rightarrow>
                             toast (Failure ''Deletion saved offline. Will sync when online.'') s3)
                   else toast (Info ''Deletion saved offline. Will sync when online.'') s2)))"

section \<open>Push: syncTasks (lines 280-361)\<close>

text \<open>
  The idiom \<^verbatim>\<open>const index = localTasks.findIndex(t => t.id === task.id);
  if (index !== -1) { localTasks[index].f = v }\<close>.
\<close>

definition modifyFirst :: "string \<Rightarrow> (LocalTask \<Rightarrow> LocalTask) \<Rightarrow> LocalTask list \<Rightarrow> LocalTask list" where
  "modifyFirst i f lt =
     (case findIndex (\<lambda>t. task_id t = i) lt of
        None \<Rightarrow> lt
      | Some index \<Rightarrow> lt[index := f (lt ! index)])"

text \<open>The request the loop body issues for a pending task, if any (lines 296-324).\<close>

definition requestFor :: "string \<Rightarrow> LocalTask \<Rightarrow> request list" where
  "requestFor uid task =
     (if is_deleted task then
        (if truthy (server_id task) then [SoftDelete (orElse (server_id task) [])] else [])
      else if truthy (server_id task) then
        [UpdatePending (orElse (server_id task) []) (title task) (description task)
           (completed task)]
      else [InsertPending (title task) (description task) (completed task) uid])"

text \<open>
  The loop's variables. \<open>pendingTasks\<close> holds the same objects as \<open>localTasks\<close>; the loop
  writes only to \<^verbatim>\<open>localTasks[index]\<close> for the first index carrying the id of the task
  being processed, an object that is that task or stands before it in \<open>localTasks\<close>, hence
  is not among the pending tasks still to come. So the fields the body reads from \<open>task\<close>
  are those the task had when the pass began, and the model iterates over those values.
\<close>

record push_acc =
  localTasks :: "LocalTask list"
  syncedCount :: nat
  errorCount :: nat
  issued :: "request list"

text \<open>
  One iteration (lines 295-349). The results of the requests are not inspected, except
  \<^verbatim>\<open>data\<close> of the insert: only a request that throws reaches the \<^verbatim>\<open>catch\<close>.
\<close>

definition pushOne :: "string \<Rightarrow> Task response \<Rightarrow> timestamp \<Rightarrow> LocalTask \<Rightarrow> push_acc \<Rightarrow> push_acc" where
  "pushOne uid resp now task acc =
     (let reqs = requestFor uid task;
          acc1 = acc\<lparr>issued := issued acc @ reqs\<rparr>;
          lt = localTasks acc1;
          tried =
            (if reqs = [] then Inr lt
             else case resp of
                    Threw e \<Rightarrow> Inl e
                  | Response d err \<Rightarrow>
                      (if \<not> is_deleted task \<and> \<not> truthy (server_id task) then
                         (case d of
                            None \<Rightarrow> Inr lt
                          | Some row \<Rightarrow>
                              Inr (modifyFirst (task_id task)
                                     (\<lambda>t. t\<lparr>server_id := Some (task_id row)\<rparr>) lt))
                       else Inr lt))
      in case tried of
           Inr lt1 \<Rightarrow>
             acc1\<lparr>localTasks :=
                    modifyFirst (task_id task)
                      (\<lambda>t. t\<lparr>sync_status := Synced, last_synced_at := Some now\<rparr>) lt1,
                  syncedCount := syncedCount acc1 + 1\<rparr>
         | Inl e \<Rightarrow>
             acc1\<lparr>errorCount := errorCount acc1 + 1,
                  localTasks :=
                    modifyFirst (task_id task) (\<lambda>t. t\<lparr>sync_status := SyncError\<rparr>) lt\<rparr>)"

text \<open>
  \<^verbatim>\<open>for (const task of pendingTasks)\<close>: \<open>net k\<close> is what the request of the \<open>k\<close>-th pending
  task gets and \<open>clock k\<close> the time read in that iteration.
\<close>

fun pushLoop ::
  "string \<Rightarrow> (nat \<Rightarrow> Task response) \<Rightarrow> (nat \<Rightarrow> timestamp) \<Rightarrow> nat \<Rightarrow> LocalTask list \<Rightarrow>
   push_acc \<Rightarrow> push_acc" where
  "pushLoop uid net clock k [] acc = acc"
| "pushLoop uid net clock k (task # rest) acc =
     pushLoop uid net clock (Suc k) rest (pushOne uid (net k) (clock k) task acc)"

text \<open>The pass up to and including \<^verbatim>\<open>saveLocalTasks(localTasks)\<close> (lines 283-352).\<close>

definition pushPass :: "string \<Rightarrow> (nat \<Rightarrow> Task response) \<Rightarrow> (nat \<Rightarrow> timestamp) \<Rightarrow> state \<Rightarrow> push_acc" where
  "pushPass uid net clock s =
     pushLoop uid net clock 0
       (filter (\<lambda>t. sync_status t = Pending) (loadLocalTasks s))
       \<lparr>localTasks = loadLocalTasks s, syncedCount = 0, errorCount = 0, issued = []\<rparr>"

definition pushed :: "string \<Rightarrow> (nat \<Rightarrow> Task response) \<Rightarrow> (nat \<Rightarrow> timestamp) \<Rightarrow> state \<Rightarrow> state" where
  "pushed uid net clock s =
     (let acc = pushPass uid net clock s
      in saveLocalTasks (localTasks acc) (s\<lparr>calls := calls s @ issued acc\<rparr>))"

definition syncTasks ::
  "(nat \<Rightarrow> Task response) \<Rightarrow> (nat \<Rightarrow> timestamp) \<Rightarrow> Task list response \<Rightarrow> timestamp \<Rightarrow>
   state \<Rightarrow> state" where
  "syncTasks net clock fresp now s =
     (case user s of
        None \<Rightarrow> s
      | Some uid \<Rightarrow>
          if \<not> isOnline s then s
          else if length (filter (\<lambda>t. sync_status t = Pending) (loadLocalTasks s)) = 0 then
            toast (Success ''All tasks are synced'') s
          else
            (let acc = pushPass uid net clock s;
                 s1 = pushed uid net clock s;
                 s2 = fetchTasks fresp now s1;
                 s3 = (if syncedCount acc > 0 then toast (SyncedToast (syncedCount acc)) s2 else s2)
             in if errorCount acc > 0 then toast (FailedToast (errorCount acc)) s3 else s3))"

section \<open>Notions used in the statements\<close>

text \<open>
  A local record without its sync bookkeeping: what the user wrote (and the identity
  and timestamps of the record), whatever the network did.
\<close>

definition forgetSync :: "LocalTask \<Rightarrow> LocalTask" where
  "forgetSync t = t\<lparr>server_id := None, last_synced_at := None, sync_status := Pending\<rparr>"

text \<open>
  What the loop of \<^verbatim>\<open>syncTasks\<close> does to one pending record, on a store where the
  record is the only one with its id (lines 295-349, stated per record): a deleted
  record without \<open>server_id\<close> makes no request and is marked \<open>synced\<close>; otherwise a
  request that throws marks the record \<open>error\<close>, and a request that resolves, with or
  without an \<^verbatim>\<open>error\<close>, marks it \<open>synced\<close>, an insert capturing the id of the row if
  there is one.
\<close>

definition settle :: "Task response \<Rightarrow> timestamp \<Rightarrow> LocalTask \<Rightarrow> LocalTask" where
  "settle resp now t =
     (if is_deleted t \<and> \<not> truthy (server_id t) then
        t\<lparr>sync_status := Synced, last_synced_at := Some now\<rparr>
      else case resp of
             Threw e \<Rightarrow> t\<lparr>sync_status := SyncError\<rparr>
           | Response d err \<Rightarrow>
               (case d of
                  Some row \<Rightarrow>
                    if \<not> is_deleted t \<and> \<not> truthy (server_id t)
                    then t\<lparr>server_id := Some (task_id row), sync_status := Synced,
                           last_synced_at := Some now\<rparr>
                    else t\<lparr>sync_status := Synced, last_synced_at := Some now\<rparr>
                | None \<Rightarrow> t\<lparr>sync_status := Synced, last_synced_at := Some now\<rparr>))"

text \<open>
  The list a push pass saves, on a store with one record per id: the records in store
  order, the \<open>k\<close>-th pending one settled by what its request got (\<open>net k\<close>), every other
  record as it was.
\<close>

fun drained ::
  "(nat \<Rightarrow> Task response) \<Rightarrow> (nat \<Rightarrow> timestamp) \<Rightarrow> nat \<Rightarrow> LocalTask list \<Rightarrow> LocalTask list" where
  "drained net clock k [] = []"
| "drained net clock k (t # ts) =
     (if sync_status t = Pending
      then settle (net k) (clock k) t # drained net clock (Suc k) ts
      else t # drained net clock k ts)"

text \<open>
  The claim that a pull does not overwrite unreconciled records: every record that was
  \<open>pending\<close> or \<open>error\<close> before is still there after, under its id, with the same title,
  description, completed flag and status.
\<close>

definition keepsUnreconciled :: "LocalTask list \<Rightarrow> LocalTask list \<Rightarrow> bool" where
  "keepsUnreconciled before after =
     (\<forall>t\<in>set before.
        sync_status t = Pending \<or> sync_status t = SyncError \<longrightarrow>
        (\<exists>t'\<in>set after.
           task_id t' = task_id t \<and> title t' = title t \<and> description t' = description t \<and>
           completed t' = completed t \<and> sync_status t' = sync_status t))"

text \<open>What \<^verbatim>\<open>saveLocalTasks\<close> counts: the records that are \<open>pending\<close> and not deleted.\<close>

definition livePending :: "LocalTask list \<Rightarrow> nat" where
  "livePending lt = length (filter (\<lambda>t. sync_status t = Pending \<and> \<not> is_deleted t) lt)"

text \<open>
  What the spec says \<open>pendingCount\<close> is: the number of stored (non-purged) records that
  carry unsynced mutations, pending deletions included.
\<close>

definition unsyncedCount :: "LocalTask list \<Rightarrow> nat" where
  "unsyncedCount lt = length (filter (\<lambda>t. sync_status t = Pending) lt)"

text \<open>
  A user mutation, with everything the call reads from outside: the generated id, the
  clock readings and what the request gets if it is made.
\<close>

datatype mutation =
    Create string "string option" string timestamp timestamp timestamp "Task response"
  | Update string updates timestamp timestamp "unit response"
  | Delete string timestamp "unit response"

fun applyMutation :: "mutation \<Rightarrow> state \<Rightarrow> state" where
  "applyMutation (Create ttl desc uuid tc tu ts resp) s = createTask ttl desc uuid tc tu ts resp s"
| "applyMutation (Update i upd now ts resp) s = updateTask i upd now ts resp s"
| "applyMutation (Delete i now resp) s = deleteTask i now resp s"

fun run :: "mutation list \<Rightarrow> state \<Rightarrow> state" where
  "run [] s = s"
| "run (m # ms) s = run ms (applyMutation m s)"

text \<open>
  \<open>updated_at\<close> does not decrease: a record of the store after an operation has an
  \<open>updated_at\<close> no earlier than the record of the same id before it.
\<close>

definition updatedAtMonotone :: "LocalTask list \<Rightarrow> LocalTask list \<Rightarrow> bool" where
  "updatedAtMonotone before after =
     (\<forall>t\<in>set before. \<forall>t'\<in>set after.
        task_id t' = task_id t \<longrightarrow> updated_at t \<le> updated_at t')"

text \<open>The invariant of the spec: a record marked \<open>synced\<close> has its \<open>server_id\<close> set.\<close>

definition syncedHasServerId :: "LocalTask list \<Rightarrow> bool" where
  "syncedHasServerId lt = (\<forall>t\<in>set lt. sync_status t = Synced \<longrightarrow> server_id t \<noteq> None)"

text \<open>
  A pending record that a push pass cannot leave \<open>synced\<close> without a \<open>server_id\<close>: it has
  one already, or it is a live record whose insert throws or returns a row.
\<close>

definition settlesWithServerId :: "Task response \<Rightarrow> LocalTask \<Rightarrow> bool" where
  "settlesWithServerId resp t =
     (server_id t \<noteq> None \<or>
      (\<not> is_deleted t \<and> (case resp of Threw e \<Rightarrow> True | Response d err \<Rightarrow> d \<noteq> None)))"

section \<open>Concrete stores and states\<close>

definition mkLocal ::
  "string \<Rightarrow> string \<Rightarrow> timestamp \<Rightarrow> bool \<Rightarrow> string option \<Rightarrow> sync_status \<Rightarrow> LocalTask" where
  "mkLocal i ttl t del sid st =
     \<lparr>task_id = i, title = ttl, description = None, completed = False, created_at = t,
      updated_at = t, is_deleted = del, server_id = sid, last_synced_at = None,
      sync_status = st\<rparr>"

definition mkRow :: "string \<Rightarrow> string \<Rightarrow> timestamp \<Rightarrow> string option \<Rightarrow> Task" where
  "mkRow i ttl t sid =
     \<lparr>task_id = i, title = ttl, description = None, completed = False, created_at = t,
      updated_at = t, is_deleted = False, server_id = sid, last_synced_at = None,
      user_id = ''u1''\<rparr>"

text \<open>The hook as mounted for the signed-in user \<open>u1\<close>, over a given stored list.\<close>

definition initial :: "bool \<Rightarrow> LocalTask list \<Rightarrow> state" where
  "initial online lt =
     \<lparr>user = Some ''u1'', isOnline = online, store = lt, last_sync_timestamp = None,
      tasks = [], loading = True, pendingSyncCount = 0, lastSyncTime = None, calls = [],
      toasts = []\<rparr>"

text \<open>Two new tasks queued while offline, the connection now restored.\<close>

definition twoPending :: state where
  "twoPending = initial True [mkLocal ''a'' ''A'' 1 False None Pending,
                              mkLocal ''b'' ''B'' 2 False None Pending]"

text \<open>A service that rejects the first request of a pass and accepts the others.\<close>

definition failFirst :: "nat \<Rightarrow> Task response" where
  "failFirst k = (if k = 0 then Threw ''ValidationError''
                  else Response (Some (mkRow ''s2'' ''B'' 3 None)) None)"

text \<open>A service that accepts every request, answering inserts with a row.\<close>

definition allSucceed :: "nat \<Rightarrow> Task response" where
  "allSucceed k = Response (Some (mkRow (''s'' @ replicate k CHR ''x'') ''row'' 3 None)) None"

text \<open>A record edited locally and not yet pushed.\<close>

definition conflict :: state where
  "conflict = initial True [mkLocal ''x'' ''X-edited'' 5 False None Pending]"

text \<open>A task created and then deleted, no request succeeding.\<close>

definition createThenDelete :: "mutation list" where
  "createThenDelete =
     [Create ''A'' None ''n1'' 5 5 6 (Threw ''Failed to fetch''),
      Delete ''n1'' 7 (Threw ''Failed to fetch'')]"

text \<open>A record in sync, last changed locally at time 5.\<close>

definition syncedOnce :: state where
  "syncedOnce = initial True [mkLocal ''x'' ''X'' 5 False None Synced]"

text \<open>A task created and deleted while offline, the connection now restored.\<close>

definition deletedBeforePush :: state where
  "deletedBeforePush = initial True [mkLocal ''n1'' ''A'' 5 True None Pending]"

text \<open>One record in sync and one new task waiting.\<close>

definition mixed :: state where
  "mixed = initial True [mkLocal ''a'' ''A'' 1 False (Some ''sa'') Synced,
                         mkLocal ''b'' ''B'' 2 False None Pending]"

text \<open>
  A service that rejects the first request of a pass by resolving with an \<^verbatim>\<open>error\<close> and
  no \<^verbatim>\<open>data\<close>, and accepts the others.
\<close>

definition rejectFirst :: "nat \<Rightarrow> Task response" where
  "rejectFirst k = (if k = 0 then Response None (Some ''ValidationError'')
                    else Response (Some (mkRow ''s2'' ''B'' 3 None)) None)"

text \<open>While offline: a synced task edited, and a new task created.\<close>

definition editedAndNew :: state where
  "editedAndNew = initial False [mkLocal ''a'' ''A'' 1 False (Some ''sa'') Pending,
                                 mkLocal ''n1'' ''N'' 5 False None Pending]"

section \<open>Lists: findIndex and removal\<close>

text \<open>The definitions unfolded when an operation is run on a concrete state.\<close>

lemmas ev = twoPending_def initial_def mkLocal_def mkRow_def failFirst_def allSucceed_def
  pushed_def pushPass_def pushOne_def modifyFirst_def requestFor_def settle_def
  truthy_def orElse_def loadLocalTasks_def saveLocalTasks_def Let_def
  syncTasks_def fetchTasks_def fetched_def request_def toast_def toTask_def toLocal_def

lemma findIndex_None_iff: "findIndex P xs = None \<longleftrightarrow> (\<forall>x\<in>set xs. \<not> P x)"
  by (induction xs) auto

lemma findIndex_Some:
  "findIndex P xs = Some k \<Longrightarrow> k < length xs \<and> P (xs ! k) \<and> (\<forall>j<k. \<not> P (xs ! j))"
proof (induction xs arbitrary: k)
  case Nil
  then show ?case by simp
next
  case (Cons x xs)
  show ?case
  proof (cases "P x")
    case True
    with Cons.prems show ?thesis by simp
  next
    case False
    with Cons.prems obtain m where m: "findIndex P xs = Some m" "k = Suc m"
      by auto
    from Cons.IH[OF m(1)] False m(2) show ?thesis
      by (auto simp: nth_Cons split: nat.splits)
  qed
qed

lemma filter_update_removeAt:
  "k < length xs \<Longrightarrow> \<not> P x \<Longrightarrow> filter P (xs[k := x]) = filter P (removeAt k xs)"
  by (simp add: upd_conv_take_nth_drop removeAt_def)

lemma removeAt_update: "removeAt k (xs[k := x]) = removeAt k xs"
  by (simp add: removeAt_def)

section \<open>A failed pull serves the local store\<close>



section \<open>The local write of a mutation does not depend on the network\<close>

lemma create_store_data:
  assumes "user s = Some uid"
  shows "map forgetSync (store (createTask ttl desc uuid tc tu ts resp s)) =
           map forgetSync (store s) @
             [\<lparr>task_id = uuid, title = ttl,
               description = (if truthy desc then desc else None), completed = False,
               created_at = tc, updated_at = tu, is_deleted = False, server_id = None,
               last_synced_at = None, sync_status = Pending\<rparr>]"
proof -
  have same: "forgetSync (if task_id t = uuid
                 then t\<lparr>server_id := Some r, sync_status := Synced, last_synced_at := Some ts\<rparr>
                 else t) = forgetSync t" for t r
    by (simp add: forgetSync_def)
  show ?thesis
    using assms
    by (simp add: createTask_def Let_def loadLocalTasks_def saveLocalTasks_def request_def
        toast_def same forgetSync_def split: sum.splits)
qed

lemma update_store_data:
  assumes "user s = Some uid"
    and "findIndex (\<lambda>t. task_id t = i \<or> server_id t = Some i) (store s) = Some k"
  shows "map forgetSync (store (updateTask i upd now ts resp s)) =
           (map forgetSync (store s))
             [k := forgetSync ((applyUpdates upd (store s ! k))\<lparr>updated_at := now\<rparr>)]"
  using assms
  by (simp add: updateTask_def Let_def loadLocalTasks_def saveLocalTasks_def request_def
      toast_def map_update forgetSync_def split: option.splits)

lemma delete_store_data:
  assumes "user s = Some uid"
    and "findIndex (\<lambda>t. task_id t = i \<or> server_id t = Some i) (store s) = Some k"
  shows "filter (\<lambda>t. \<not> is_deleted t) (store (deleteTask i now resp s)) =
           filter (\<lambda>t. \<not> is_deleted t) (removeAt k (store s))"
proof -
  from findIndex_Some[OF assms(2)] have k: "k < length (store s)" by simp
  show ?thesis
    using assms k
    by (simp add: deleteTask_def Let_def loadLocalTasks_def saveLocalTasks_def request_def
        toast_def filter_update_removeAt removeAt_update split: option.splits)
qed

text \<open>
  C9. For a signed-in user, whatever the connectivity flag and whatever the request
  gets (a row, an error, an exception), the stored list after the call carries the
  requested change: after \<open>createTask\<close> it is the old list followed by the new record;
  after \<open>updateTask\<close> of a record found at index \<open>k\<close> it is the old list with the updates
  and the new \<open>updated_at\<close> written at \<open>k\<close>; after \<open>deleteTask\<close> of a record found at index
  \<open>k\<close> its non-deleted records are those of the old list without the one at \<open>k\<close>. The
  network decides only the sync bookkeeping (\<open>server_id\<close>, \<open>last_synced_at\<close>,
  \<open>sync_status\<close>) and whether a deleted record stays as a tombstone.
\<close>

theorem local_write_survives_network:
  assumes "user s = Some uid"
  shows "map forgetSync (store (createTask ttl desc uuid tc tu ts cresp s)) =
           map forgetSync (store s) @
             [\<lparr>task_id = uuid, title = ttl,
               description = (if truthy desc then desc else None), completed = False,
               created_at = tc, updated_at = tu, is_deleted = False, server_id = None,
               last_synced_at = None, sync_status = Pending\<rparr>] \<and>
         (findIndex (\<lambda>t. task_id t = i \<or> server_id t = Some i) (store s) = Some k \<longrightarrow>
            map forgetSync (store (updateTask i upd now us uresp s)) =
              (map forgetSync (store s))
                [k := forgetSync ((applyUpdates upd (store s ! k))\<lparr>updated_at := now\<rparr>)] \<and>
            filter (\<lambda>t. \<not> is_deleted t) (store (deleteTask i now dresp s)) =
              filter (\<lambda>t. \<not> is_deleted t) (removeAt k (store s)))"
  using create_store_data[OF assms] update_store_data[OF assms] delete_store_data[OF assms]
  by blast

theorem local_write_survives_network_witness:
  "map forgetSync
     (store (createTask ''Buy milk'' (Some []) ''n1'' 5 5 6 (Threw ''Failed to fetch'')
               (initial True [mkLocal ''a'' ''A'' 1 False (Some ''sa'') Synced]))) =
     [mkLocal ''a'' ''A'' 1 False None Pending, mkLocal ''n1'' ''Buy milk'' 5 False None Pending] \<and>
   map forgetSync
     (store (updateTask ''sa'' \<lparr>new_title = Some ''A2'', new_description = None,
                                new_completed = None\<rparr> 7 8
               (Response None (Some ''ValidationError''))
               (initial True [mkLocal ''a'' ''A'' 1 False (Some ''sa'') Synced]))) =
     [(mkLocal ''a'' ''A2'' 1 False None Pending)\<lparr>updated_at := 7\<rparr>] \<and>
   filter (\<lambda>t. \<not> is_deleted t)
     (store (deleteTask ''sa'' 7 (Threw ''Failed to fetch'')
               (initial True [mkLocal ''a'' ''A'' 1 False (Some ''sa'') Synced]))) = []"
  using local_write_survives_network
          [of "initial True [mkLocal ''a'' ''A'' 1 False (Some ''sa'') Synced]" "''u1''"
              "''Buy milk''" "Some []" "''n1''" 5 5 6 "Threw ''Failed to fetch''"
              "''sa''" 0
              "\<lparr>new_title = Some ''A2'', new_description = None, new_completed = None\<rparr>"
              7 8 "Response None (Some ''ValidationError'')" "Threw ''Failed to fetch''"]
  by (simp add: initial_def mkLocal_def forgetSync_def truthy_def applyUpdates_def
      removeAt_def)

section \<open>An identifier that matches no record\<close>

text \<open>
  C10. \<open>updateTask\<close> and \<open>deleteTask\<close> look for the first record whose \<open>task_id\<close> or
  \<open>server_id\<close> is the given identifier. When no record of the stored list matches on
  either field, both calls return the state as it was: stored list, visible tasks,
  pending count, requests issued and toasts are all unchanged.
\<close>

theorem unknown_id_is_noop:
  assumes "\<forall>t\<in>set (store s). task_id t \<noteq> i \<and> server_id t \<noteq> Some i"
  shows "updateTask i upd now t_synced resp s = s \<and> deleteTask i now resp' s = s"
proof -
  from assms have "findIndex (\<lambda>t. task_id t = i \<or> server_id t = Some i) (store s) = None"
    by (simp add: findIndex_None_iff)
  then show ?thesis
    by (simp add: updateTask_def deleteTask_def loadLocalTasks_def split: option.splits)
qed

theorem unknown_id_is_noop_witness:
  "updateTask ''zz'' \<lparr>new_title = Some ''T'', new_description = None, new_completed = Some True\<rparr>
     7 8 (Response None None)
     (initial True [mkLocal ''a'' ''A'' 1 False (Some ''sa'') Synced]) =
     initial True [mkLocal ''a'' ''A'' 1 False (Some ''sa'') Synced] \<and>
   deleteTask ''zz'' 7 (Response None None)
     (initial True [mkLocal ''a'' ''A'' 1 False (Some ''sa'') Synced]) =
     initial True [mkLocal ''a'' ''A'' 1 False (Some ''sa'') Synced]"
  using unknown_id_is_noop
          [of "initial True [mkLocal ''a'' ''A'' 1 False (Some ''sa'') Synced]" "''zz''"
              "\<lparr>new_title = Some ''T'', new_description = None, new_completed = Some True\<rparr>"
              7 8 "Response None None" "Response None None"]
  by (simp add: initial_def mkLocal_def)

section \<open>The push pass on a store with one record per id\<close>

lemma settle_id [simp]: "task_id (settle resp now t) = task_id t"
  by (simp add: settle_def split: response.splits option.splits)

lemma settle_updated_at [simp]: "updated_at (settle resp now t) = updated_at t"
  by (simp add: settle_def split: response.splits option.splits)

text \<open>With one record per id, writing to the first record of an id is a map.\<close>

lemma modifyFirst_map:
  assumes "distinct (map task_id lt)"
  shows "modifyFirst i f lt = map (\<lambda>t. if task_id t = i then f t else t) lt"
  using assms
proof (induction lt)
  case Nil
  show ?case by (simp add: modifyFirst_def)
next
  case (Cons x xs)
  show ?case
  proof (cases "task_id x = i")
    case True
    with Cons.prems have "\<forall>t\<in>set xs. task_id t \<noteq> i" by (auto simp: image_iff)
    then have "map (\<lambda>t. if task_id t = i then f t else t) xs = xs"
      by (simp add: map_idI)
    with True show ?thesis by (simp add: modifyFirst_def)
  next
    case False
    from Cons have IH: "modifyFirst i f xs = map (\<lambda>t. if task_id t = i then f t else t) xs"
      by simp
    show ?thesis
    proof (cases "findIndex (\<lambda>t. task_id t = i) xs")
      case None
      with IH False show ?thesis by (simp add: modifyFirst_def)
    next
      case (Some m)
      with IH False show ?thesis by (simp add: modifyFirst_def)
    qed
  qed
qed

text \<open>One iteration on a store with one record per id that holds the task itself.\<close>

lemma pushOne_localTasks:
  assumes d: "distinct (map task_id (localTasks acc))" and mem: "task \<in> set (localTasks acc)"
  shows "localTasks (pushOne uid resp now task acc) =
           map (\<lambda>t. if task_id t = task_id task then settle resp now t else t) (localTasks acc)"
proof -
  have only: "t = task" if "t \<in> set (localTasks acc)" "task_id t = task_id task" for t
    using d mem that by (meson distinct_map inj_onD)
  have d2: "distinct (map task_id (map (\<lambda>t. if task_id t = task_id task
              then t\<lparr>server_id := Some r\<rparr> else t) (localTasks acc)))" for r
  proof -
    have "task_id \<circ> (\<lambda>t. if task_id t = task_id task
              then t\<lparr>server_id := Some r\<rparr> else t) = (task_id :: LocalTask \<Rightarrow> string)"
      by (auto simp: fun_eq_iff)
    with d show ?thesis by simp
  qed
  show ?thesis
  proof (cases resp)
    case (Threw e)
    then show ?thesis
      by (auto simp add: pushOne_def Let_def modifyFirst_map[OF d] settle_def requestFor_def
          dest: only)
  next
    case (Response dd err)
    show ?thesis
    proof (cases dd)
      case None
      with Response show ?thesis
        by (auto simp add: pushOne_def Let_def modifyFirst_map[OF d] settle_def requestFor_def
            dest: only)
    next
      case (Some row)
      with Response show ?thesis
        by (auto simp add: pushOne_def Let_def modifyFirst_map[OF d] modifyFirst_map[OF d2]
            settle_def requestFor_def dest: only)
    qed
  qed
qed

lemma pushOne_counts:
  "syncedCount (pushOne uid resp now task acc) + errorCount (pushOne uid resp now task acc) =
     Suc (syncedCount acc + errorCount acc)"
  by (simp add: pushOne_def Let_def split: response.splits option.splits sum.splits)

lemma pushOne_issued:
  "issued (pushOne uid resp now task acc) = issued acc @ requestFor uid task"
  by (simp add: pushOne_def Let_def split: response.splits option.splits sum.splits)

lemma pushLoop_counts:
  "syncedCount (pushLoop uid net clock k ps acc) + errorCount (pushLoop uid net clock k ps acc) =
     syncedCount acc + errorCount acc + length ps"
  by (induction ps arbitrary: k acc) (simp_all add: pushOne_counts)

lemma pushLoop_issued:
  "issued (pushLoop uid net clock k ps acc) = issued acc @ concat (map (requestFor uid) ps)"
  by (induction ps arbitrary: k acc) (simp_all add: pushOne_issued)

lemma pushLoop_localTasks:
  assumes "distinct (map task_id (localTasks acc))" and "distinct (map task_id ps)"
    and "set ps \<subseteq> set (localTasks acc)"
  shows "localTasks (pushLoop uid net clock k ps acc) =
           map (\<lambda>t. case findIndex (\<lambda>q. task_id q = task_id t) ps of
                      None \<Rightarrow> t
                    | Some m \<Rightarrow> settle (net (k + m)) (clock (k + m)) t) (localTasks acc)"
  using assms
proof (induction ps arbitrary: k acc)
  case Nil
  show ?case by simp
next
  case (Cons p ps)
  define acc1 where "acc1 = pushOne uid (net k) (clock k) p acc"
  have lt1: "localTasks acc1 =
               map (\<lambda>t. if task_id t = task_id p then settle (net k) (clock k) t else t)
                 (localTasks acc)"
    unfolding acc1_def using Cons.prems by (intro pushOne_localTasks) auto
  have ids: "map task_id (localTasks acc1) = map task_id (localTasks acc)"
    by (simp add: lt1 cong: map_cong)
  have fresh: "\<forall>q\<in>set ps. task_id q \<noteq> task_id p"
    using Cons.prems(2) by (auto simp: image_iff)
  have sub: "set ps \<subseteq> set (localTasks acc1)"
  proof
    fix q assume q: "q \<in> set ps"
    with Cons.prems(3) have "q \<in> set (localTasks acc)" by auto
    moreover from q fresh have "task_id q \<noteq> task_id p" by simp
    ultimately show "q \<in> set (localTasks acc1)"
      unfolding lt1 by (auto simp: image_iff intro!: bexI[of _ q])
  qed
  have IH: "localTasks (pushLoop uid net clock (Suc k) ps acc1) =
              map (\<lambda>t. case findIndex (\<lambda>q. task_id q = task_id t) ps of
                         None \<Rightarrow> t
                       | Some m \<Rightarrow> settle (net (Suc k + m)) (clock (Suc k + m)) t)
                (localTasks acc1)"
    using Cons.prems ids by (intro Cons.IH sub) auto
  have none: "findIndex (\<lambda>q. task_id q = task_id p) ps = None"
    using fresh by (simp add: findIndex_None_iff)
  show ?case
    by (simp add: acc1_def[symmetric] IH lt1 none split: option.splits)
qed

lemma drained_map:
  assumes "distinct (map task_id xs)"
  shows "map (\<lambda>t. case findIndex (\<lambda>q. task_id q = task_id t)
                         (filter (\<lambda>t. sync_status t = Pending) xs) of
                    None \<Rightarrow> t
                  | Some m \<Rightarrow> settle (net (k + m)) (clock (k + m)) t) xs =
         drained net clock k xs"
  using assms
proof (induction xs arbitrary: k)
  case Nil
  show ?case by simp
next
  case (Cons x xs)
  have fresh: "\<forall>t\<in>set xs. task_id t \<noteq> task_id x"
    using Cons.prems by (auto simp: image_iff)
  have d: "distinct (map task_id xs)"
    using Cons.prems by simp
  show ?case
  proof (cases "sync_status x = Pending")
    case True
    have "map (\<lambda>t. case findIndex (\<lambda>q. task_id q = task_id t)
                         (filter (\<lambda>t. sync_status t = Pending) (x # xs)) of
                    None \<Rightarrow> t
                  | Some m \<Rightarrow> settle (net (k + m)) (clock (k + m)) t) xs =
          map (\<lambda>t. case findIndex (\<lambda>q. task_id q = task_id t)
                         (filter (\<lambda>t. sync_status t = Pending) xs) of
                    None \<Rightarrow> t
                  | Some m \<Rightarrow> settle (net (Suc k + m)) (clock (Suc k + m)) t) xs"
      using fresh True by (intro map_cong) (auto split: option.splits)
    with Cons.IH[OF d, of "Suc k"] True show ?thesis by simp
  next
    case False
    have "findIndex (\<lambda>q. task_id q = task_id x) (filter (\<lambda>t. sync_status t = Pending) xs) = None"
      using fresh by (auto simp: findIndex_None_iff)
    with Cons.IH[OF d, of k] False show ?thesis by simp
  qed
qed

lemma pushPass_localTasks:
  assumes "distinct (map task_id (store s))"
  shows "localTasks (pushPass uid net clock s) = drained net clock 0 (store s)"
proof -
  have "localTasks (pushPass uid net clock s) =
          map (\<lambda>t. case findIndex (\<lambda>q. task_id q = task_id t)
                         (filter (\<lambda>t. sync_status t = Pending) (store s)) of
                    None \<Rightarrow> t
                  | Some m \<Rightarrow> settle (net (0 + m)) (clock (0 + m)) t) (store s)"
    unfolding pushPass_def loadLocalTasks_def
    using assms by (subst pushLoop_localTasks) (auto simp: distinct_map_filter)
  then show ?thesis
    using drained_map[OF assms, of net 0 clock] by simp
qed

lemma pushPass_issued:
  "issued (pushPass uid net clock s) =
     concat (map (requestFor uid) (filter (\<lambda>t. sync_status t = Pending) (store s)))"
  by (simp add: pushPass_def loadLocalTasks_def pushLoop_issued)

lemma pushPass_counts:
  "syncedCount (pushPass uid net clock s) + errorCount (pushPass uid net clock s) =
     length (filter (\<lambda>t. sync_status t = Pending) (store s))"
  by (simp add: pushPass_def loadLocalTasks_def pushLoop_counts)

lemma settle_not_pending: "sync_status (settle resp now t) \<noteq> Pending"
  by (simp add: settle_def split: response.splits option.splits)

lemma drained_no_pending: "\<forall>t\<in>set (drained net clock k xs). sync_status t \<noteq> Pending"
  by (induction xs arbitrary: k) (simp_all add: settle_not_pending)

lemma pushed_store:
  "distinct (map task_id (store s)) \<Longrightarrow> store (pushed uid net clock s) = drained net clock 0 (store s)"
  by (simp add: pushed_def Let_def saveLocalTasks_def pushPass_localTasks)

lemma pushed_calls:
  "calls (pushed uid net clock s) =
     calls s @ concat (map (requestFor uid) (filter (\<lambda>t. sync_status t = Pending) (store s)))"
  by (simp add: pushed_def Let_def saveLocalTasks_def pushPass_issued)

lemma fetchTasks_toasts: "toasts (fetchTasks resp now s) = toasts s"
  by (simp add: fetchTasks_def Let_def request_def saveLocalTasks_def
      split: option.splits sum.splits)

lemma fetchTasks_user: "user (fetchTasks resp now s) = user s"
  by (simp add: fetchTasks_def Let_def request_def saveLocalTasks_def
      split: option.splits sum.splits)

lemma fetchTasks_isOnline: "isOnline (fetchTasks resp now s) = isOnline s"
  by (simp add: fetchTasks_def Let_def request_def saveLocalTasks_def
      split: option.splits sum.splits)

lemma fetchTasks_store:
  "user s = Some uid \<Longrightarrow>
     store (fetchTasks resp now s) =
       (case fetched resp of Inl e \<Rightarrow> store s | Inr rows \<Rightarrow> map (toLocal Synced) rows)"
  by (simp add: fetchTasks_def Let_def request_def saveLocalTasks_def split: sum.splits)

lemma pushed_toasts: "toasts (pushed uid net clock s) = toasts s"
  by (simp add: pushed_def Let_def saveLocalTasks_def)

section \<open>Push: a request that resolves with an error\<close>

text \<open>
  C5 at the input where the code departs from it. Two new tasks are pending; the insert
  of the first resolves with a \<open>ValidationError\<close> and no row, the insert of the second
  returns a row. The loop never reads the \<^verbatim>\<open>error\<close> of what a request resolves to, so
  the rejected record is marked \<open>synced\<close> (with no \<open>server_id\<close>) and counted as
  succeeded: the pass reports 2 synced and 0 failed, where the claim has the first
  record \<open>error\<close> and the counts 1 and 1. \<open>createTask\<close>, given the same answer, rethrows
  the error and leaves its record \<open>pending\<close>.
\<close>

theorem push_counts_resolved_error_as_success:
  "store (pushed ''u1'' rejectFirst (\<lambda>k. 7) twoPending) =
     [(mkLocal ''a'' ''A'' 1 False None Synced)\<lparr>last_synced_at := Some 7\<rparr>,
      (mkLocal ''b'' ''B'' 2 False (Some ''s2'') Synced)\<lparr>last_synced_at := Some 7\<rparr>] \<and>
   syncedCount (pushPass ''u1'' rejectFirst (\<lambda>k. 7) twoPending) = 2 \<and>
   errorCount (pushPass ''u1'' rejectFirst (\<lambda>k. 7) twoPending) = 0 \<and>
   toasts (syncTasks rejectFirst (\<lambda>k. 7) (Threw ''Failed to fetch'') 8 twoPending) =
     [SyncedToast 2] \<and>
   store (createTask ''A'' None ''a'' 1 1 2 (rejectFirst 0) (initial True [])) =
     [mkLocal ''a'' ''A'' 1 False None Pending]"
  by (simp add: ev rejectFirst_def createTask_def inserted_def)

section \<open>A second push pass has nothing to do\<close>

text \<open>
  C2. On a store with one record per id, for a signed-in user who is online: after one
  \<open>syncTasks\<close> no record is \<open>pending\<close> (whatever the requests and the trailing pull
  got: in particular when every pending record succeeded), so a second \<open>syncTasks\<close> with
  no mutation in between issues no request and leaves the stored list as it is.
\<close>

theorem second_push_is_noop:
  assumes u: "user s = Some uid" and on: "isOnline s"
    and d: "distinct (map task_id (store s))"
    and s1: "s1 = syncTasks net clock fresp now s"
  shows "(\<forall>t\<in>set (store s1). sync_status t \<noteq> Pending) \<and>
         calls (syncTasks net' clock' fresp' now' s1) = calls s1 \<and>
         store (syncTasks net' clock' fresp' now' s1) = store s1"
proof -
  have np: "\<forall>t\<in>set (store s1). sync_status t \<noteq> Pending"
  proof (cases "filter (\<lambda>t. sync_status t = Pending) (store s) = []")
    case True
    then have "store s1 = store s"
      using u on by (simp add: s1 syncTasks_def loadLocalTasks_def toast_def)
    with True show ?thesis by (simp add: filter_empty_conv)
  next
    case False
    have pu: "user (pushed uid net clock s) = Some uid"
      using u by (simp add: pushed_def Let_def saveLocalTasks_def)
    have "store s1 = store (fetchTasks fresp now (pushed uid net clock s))"
      using u on False by (simp add: s1 syncTasks_def Let_def loadLocalTasks_def toast_def)
    also have "\<dots> = (case fetched fresp of
               Inl e \<Rightarrow> drained net clock 0 (store s)
             | Inr rows \<Rightarrow> map (toLocal Synced) rows)"
      by (simp add: fetchTasks_store[OF pu] pushed_store[OF d] split: sum.splits)
    finally have "store s1 =
            (case fetched fresp of
               Inl e \<Rightarrow> drained net clock 0 (store s)
             | Inr rows \<Rightarrow> map (toLocal Synced) rows)" .
    then show ?thesis
      using drained_no_pending[of net clock 0 "store s"]
      by (auto simp: toLocal_def split: sum.splits)
  qed
  then have "filter (\<lambda>t. sync_status t = Pending) (store s1) = []"
    by (simp add: filter_empty_conv)
  then have "syncTasks net' clock' fresp' now' s1 = s1 \<or>
             syncTasks net' clock' fresp' now' s1 = toast (Success ''All tasks are synced'') s1"
    by (simp add: syncTasks_def loadLocalTasks_def split: option.splits)
  then have "calls (syncTasks net' clock' fresp' now' s1) = calls s1 \<and>
             store (syncTasks net' clock' fresp' now' s1) = store s1"
    by (auto simp: toast_def)
  with np show ?thesis by simp
qed

theorem second_push_is_noop_witness:
  "filter (\<lambda>t. sync_status t = Pending)
     (store (syncTasks allSucceed (\<lambda>k. 7) (Threw ''Failed to fetch'') 8 twoPending)) = [] \<and>
   calls (syncTasks allSucceed (\<lambda>k. 9) (Threw ''Failed to fetch'') 9
            (syncTasks allSucceed (\<lambda>k. 7) (Threw ''Failed to fetch'') 8 twoPending)) =
     calls (syncTasks allSucceed (\<lambda>k. 7) (Threw ''Failed to fetch'') 8 twoPending) \<and>
   store (syncTasks allSucceed (\<lambda>k. 9) (Threw ''Failed to fetch'') 9
            (syncTasks allSucceed (\<lambda>k. 7) (Threw ''Failed to fetch'') 8 twoPending)) =
     store (syncTasks allSucceed (\<lambda>k. 7) (Threw ''Failed to fetch'') 8 twoPending)"
  using second_push_is_noop
          [of twoPending "''u1''"
              "syncTasks allSucceed (\<lambda>k. 7) (Threw ''Failed to fetch'') 8 twoPending"
              allSucceed "\<lambda>k. 7" "Threw ''Failed to fetch''" 8
              allSucceed "\<lambda>k. 9" "Threw ''Failed to fetch''" 9]
  by (simp add: twoPending_def initial_def mkLocal_def filter_empty_conv)

section \<open>A successful pull replaces the store\<close>

lemma fetch_failed_store: "fetched resp = Inl e \<Longrightarrow> store (fetchTasks resp now s) = store s"
  by (simp add: fetchTasks_def Let_def request_def loadLocalTasks_def split: option.splits)

text \<open>
  C1, as the claim has it, fails: a pull that succeeds keeps no local record. The record
  edited locally to \<open>X-edited\<close> and still pending comes out of the pull with the server's
  title \<open>X-old\<close> and the status \<open>synced\<close>.
\<close>

theorem pull_overwrites_pending_record:
  "\<not> keepsUnreconciled (store conflict)
       (store (fetchTasks (Response (Some [mkRow ''x'' ''X-old'' 3 None]) None) 9 conflict)) \<and>
   store (fetchTasks (Response (Some [mkRow ''x'' ''X-old'' 3 None]) None) 9 conflict) =
     [mkLocal ''x'' ''X-old'' 3 False None Synced]"
  by (simp add: keepsUnreconciled_def conflict_def ev)

text \<open>
  C1, amended. For a signed-in user, a pull whose fetch fails leaves the stored list as
  it is, so every pending or error record keeps its title, description, completed flag
  and status; a pull whose fetch succeeds replaces the whole stored list by the fetched
  rows, each marked \<open>synced\<close>, whatever the status of the local records was.
\<close>

theorem pull_replaces_or_keeps_store:
  assumes "user s = Some uid"
  shows "(fetched resp = Inl e \<longrightarrow>
            store (fetchTasks resp now s) = store s \<and>
            keepsUnreconciled (store s) (store (fetchTasks resp now s))) \<and>
         (fetched resp = Inr rows \<longrightarrow>
            store (fetchTasks resp now s) = map (toLocal Synced) rows)"
  using assms
  by (auto simp add: fetchTasks_store keepsUnreconciled_def)

theorem pull_replaces_or_keeps_store_witness:
  "store (fetchTasks (Threw ''Failed to fetch'') 9 conflict) = store conflict \<and>
   keepsUnreconciled (store conflict) (store (fetchTasks (Threw ''Failed to fetch'') 9 conflict)) \<and>
   store (fetchTasks (Response (Some [mkRow ''x'' ''X-old'' 3 None]) None) 9 conflict) =
     map (toLocal Synced) [mkRow ''x'' ''X-old'' 3 None]"
  using pull_replaces_or_keeps_store
          [of conflict "''u1''" "Threw ''Failed to fetch''" "''Failed to fetch''" 9]
        pull_replaces_or_keeps_store
          [of conflict "''u1''" "Response (Some [mkRow ''x'' ''X-old'' 3 None]) None" _ 9
              "[mkRow ''x'' ''X-old'' 3 None]"]
  by (simp add: conflict_def initial_def fetched_def keepsUnreconciled_def)

section \<open>The pending count\<close>

lemma saveLocalTasks_consistent:
  "pendingSyncCount (saveLocalTasks lt s) = livePending (store (saveLocalTasks lt s))"
  by (simp add: saveLocalTasks_def livePending_def)

lemma applyMutation_consistent:
  assumes "pendingSyncCount s = livePending (store s)"
  shows "pendingSyncCount (applyMutation m s) = livePending (store (applyMutation m s))"
proof (cases m)
  case (Create ttl desc uuid tc tu ts resp)
  then show ?thesis
    using assms
    by (simp add: createTask_def Let_def toast_def request_def saveLocalTasks_def
        livePending_def split: option.splits sum.splits)
next
  case (Update i upd now ts resp)
  then show ?thesis
    using assms
    by (simp add: updateTask_def Let_def toast_def request_def saveLocalTasks_def
        livePending_def split: option.splits)
next
  case (Delete i now resp)
  then show ?thesis
    using assms
    by (simp add: deleteTask_def Let_def toast_def request_def saveLocalTasks_def
        livePending_def split: option.splits)
qed

text \<open>
  C7, as the claim has it, fails: a pending deletion is not counted. After a task is
  created and deleted offline the store holds one pending record, the tombstone, and
  the pending count is 0.
\<close>

theorem pending_count_omits_pending_deletion:
  "pendingSyncCount (run createThenDelete (initial False [])) = 0 \<and>
   unsyncedCount (store (run createThenDelete (initial False []))) = 1 \<and>
   store (run createThenDelete (initial False [])) =
     [(mkLocal ''n1'' ''A'' 5 True None Pending)\<lparr>updated_at := 7\<rparr>]"
  by (simp add: createThenDelete_def createTask_def deleteTask_def unsyncedCount_def ev)

text \<open>
  C7, amended. After any sequence of create, update and delete calls (offline or
  online), started in a state whose pending count agrees with its store, the pending
  count is the number of stored records that are \<open>pending\<close> and not deleted: pending
  deletions and \<open>error\<close> records are not counted.
\<close>

theorem pending_count_counts_live_pending:
  assumes "pendingSyncCount s = livePending (store s)"
  shows "pendingSyncCount (run ms s) = livePending (store (run ms s))"
  using assms by (induction ms arbitrary: s) (simp_all add: applyMutation_consistent)

theorem pending_count_counts_live_pending_witness:
  "pendingSyncCount (run createThenDelete (initial False [])) =
     livePending (store (run createThenDelete (initial False [])))"
  using pending_count_counts_live_pending[of "initial False []" createThenDelete]
  by (simp add: initial_def livePending_def)

section \<open>Deleting a task that was never pushed\<close>

text \<open>
  C3, as the claim has it, fails: a task created and deleted while offline is not purged.
  It stays in the store as a pending tombstone.
\<close>

theorem offline_delete_of_new_task_keeps_tombstone:
  "store (deleteTask ''n1'' 7 (Threw ''Failed to fetch'')
            (createTask ''A'' None ''n1'' 5 5 6 (Threw ''Failed to fetch'') (initial False []))) =
     [(mkLocal ''n1'' ''A'' 5 True None Pending)\<lparr>updated_at := 7\<rparr>]"
  by (simp add: createTask_def deleteTask_def ev)

lemma drained_length: "length (drained net clock j xs) = length xs"
  by (induction xs arbitrary: j) simp_all

lemma drained_nth_pending:
  assumes "k < length xs" and "sync_status (xs ! k) = Pending"
  shows "drained net clock j xs ! k =
           settle (net (j + length (filter (\<lambda>t. sync_status t = Pending) (take k xs))))
                  (clock (j + length (filter (\<lambda>t. sync_status t = Pending) (take k xs))))
                  (xs ! k)"
  using assms
proof (induction xs arbitrary: j k)
  case Nil
  then show ?case by simp
next
  case (Cons x xs)
  show ?case
  proof (cases k)
    case 0
    with Cons.prems show ?thesis by simp
  next
    case (Suc k')
    with Cons.prems have k': "k' < length xs" "sync_status (xs ! k') = Pending"
      by simp_all
    show ?thesis
    proof (cases "sync_status x = Pending")
      case True
      with Suc Cons.IH[OF k', of "Suc j"] show ?thesis by simp
    next
      case False
      with Suc Cons.IH[OF k', of j] show ?thesis by simp
    qed
  qed
qed

lemma requests_skip_silent:
  assumes "k < length xs" and "f x = []"
  shows "concat (map f (filter P (xs[k := x]))) = concat (map f (filter P (removeAt k xs)))"
  using assms by (simp add: upd_conv_take_nth_drop removeAt_def)

lemma fetchTasks_calls:
  "user s = Some uid \<Longrightarrow> calls (fetchTasks resp now s) = calls s @ [SelectTasks]"
  by (simp add: fetchTasks_def Let_def request_def saveLocalTasks_def split: sum.splits)

text \<open>
  C3, amended. On a store with one record per id, when a record without \<open>server_id\<close> is
  deleted while offline, \<open>deleteTask\<close> issues no request, hides the task from the visible
  list and keeps the record in the store as a tombstone (\<open>is_deleted\<close>, \<open>pending\<close>): the
  deletion does not purge it. A \<open>syncTasks\<close> run on that store once the connection is
  back issues the requests of the other pending records and the select of its
  trailing pull, none for the tombstone, which its push pass marks \<open>synced\<close>. When the
  trailing pull fails the tombstone stays in the store, \<open>synced\<close> and without
  \<open>server_id\<close>; when it succeeds the store becomes the fetched rows.
\<close>

theorem unpushed_delete_then_sync:
  assumes u: "user s = Some uid" and off: "\<not> isOnline s"
    and d: "distinct (map task_id (store s))"
    and f: "findIndex (\<lambda>t. task_id t = i \<or> server_id t = Some i) (store s) = Some k"
    and sid: "server_id (store s ! k) = None"
    and tomb: "tomb = (store s ! k)\<lparr>is_deleted := True, updated_at := now, sync_status := Pending\<rparr>"
    and s1: "s1 = (deleteTask i now resp s)\<lparr>isOnline := True\<rparr>"
    and m: "m = length (filter (\<lambda>t. sync_status t = Pending) (take k (store s)))"
  shows "store (deleteTask i now resp s) = (store s)[k := tomb] \<and>
         calls (deleteTask i now resp s) = calls s \<and>
         tasks (deleteTask i now resp s) =
           filter (\<lambda>t. task_id t \<noteq> i \<and> server_id t \<noteq> Some i) (tasks s) \<and>
         calls (syncTasks net clock fresp now' s1) =
           calls s @
           concat (map (requestFor uid)
                     (filter (\<lambda>t. sync_status t = Pending) (removeAt k (store s)))) @
           [SelectTasks] \<and>
         (fetched fresp = Inl e \<longrightarrow>
            length (store (syncTasks net clock fresp now' s1)) = length (store s) \<and>
            store (syncTasks net clock fresp now' s1) ! k =
              tomb\<lparr>sync_status := Synced, last_synced_at := Some (clock m)\<rparr>) \<and>
         (fetched fresp = Inr rows \<longrightarrow>
            store (syncTasks net clock fresp now' s1) = map (toLocal Synced) rows)"
proof -
  from findIndex_Some[OF f] have k: "k < length (store s)" by simp
  have del: "store (deleteTask i now resp s) = (store s)[k := tomb]"
    "calls (deleteTask i now resp s) = calls s"
    "tasks (deleteTask i now resp s) =
       filter (\<lambda>t. task_id t \<noteq> i \<and> server_id t \<noteq> Some i) (tasks s)"
    "user (deleteTask i now resp s) = Some uid"
    using u off f tomb
    by (simp_all add: deleteTask_def Let_def loadLocalTasks_def saveLocalTasks_def toast_def)
  have st1: "store s1 = (store s)[k := tomb]" and c1: "calls s1 = calls s"
    and u1: "user s1 = Some uid" and on1: "isOnline s1"
    by (simp_all add: s1 del)
  have tp: "sync_status tomb = Pending" and tid: "task_id tomb = task_id (store s ! k)"
    and silent: "requestFor uid tomb = []"
    using sid by (simp_all add: tomb requestFor_def truthy_def)
  have d1: "distinct (map task_id (store s1))"
    using d tid by (simp add: st1 map_update list_update_same_conv[THEN iffD2] k)
  have nth1: "store s1 ! k = tomb"
    using k by (simp add: st1)
  have pend: "filter (\<lambda>t. sync_status t = Pending) (store s1) \<noteq> []"
    using k tp by (auto simp: st1 filter_empty_conv set_update_memI)
  have up: "user (pushed uid net clock s1) = Some uid"
    using u1 by (simp add: pushed_def Let_def saveLocalTasks_def)
  have sy_store: "store (syncTasks net clock fresp now' s1) =
                    store (fetchTasks fresp now' (pushed uid net clock s1))"
    and sy_calls: "calls (syncTasks net clock fresp now' s1) =
                    calls (fetchTasks fresp now' (pushed uid net clock s1))"
    using u1 on1 pend
    by (simp_all add: syncTasks_def Let_def loadLocalTasks_def toast_def)
  have calls: "calls (syncTasks net clock fresp now' s1) =
           calls s @
           concat (map (requestFor uid)
                     (filter (\<lambda>t. sync_status t = Pending) (removeAt k (store s)))) @
           [SelectTasks]"
    by (simp add: sy_calls fetchTasks_calls[OF up] pushed_calls c1 st1
        requests_skip_silent[where f = "requestFor uid" and x = tomb, OF k silent])
  have ps: "store (pushed uid net clock s1) = drained net clock 0 ((store s)[k := tomb])"
    using pushed_store[OF d1] by (simp add: st1)
  have settled: "settle r \<tau> tomb = tomb\<lparr>sync_status := Synced, last_synced_at := Some \<tau>\<rparr>"
    for r \<tau>
    using sid by (simp add: settle_def tomb truthy_def)
  have nthp: "drained net clock 0 ((store s)[k := tomb]) ! k =
                tomb\<lparr>sync_status := Synced, last_synced_at := Some (clock m)\<rparr>"
    using drained_nth_pending[of k "(store s)[k := tomb]" net clock 0] k tp
    by (simp add: settled m)
  have failed: "length (store (syncTasks net clock fresp now' s1)) = length (store s) \<and>
            store (syncTasks net clock fresp now' s1) ! k =
              tomb\<lparr>sync_status := Synced, last_synced_at := Some (clock m)\<rparr>"
    if "fetched fresp = Inl e"
    using that by (simp add: sy_store fetchTasks_store[OF up] ps nthp drained_length)
  have ok: "store (syncTasks net clock fresp now' s1) = map (toLocal Synced) rows"
    if "fetched fresp = Inr rows"
    using that by (simp add: sy_store fetchTasks_store[OF up])
  from del(1-3) calls failed ok show ?thesis by blast
qed

theorem unpushed_delete_then_sync_witness:
  "store (deleteTask ''n1'' 7 (Threw ''Failed to fetch'') editedAndNew) =
     [mkLocal ''a'' ''A'' 1 False (Some ''sa'') Pending,
      (mkLocal ''n1'' ''N'' 5 True None Pending)\<lparr>updated_at := 7\<rparr>] \<and>
   calls (deleteTask ''n1'' 7 (Threw ''Failed to fetch'') editedAndNew) = [] \<and>
   calls (syncTasks allSucceed (\<lambda>k. 8) (Threw ''Failed to fetch'') 9
            ((deleteTask ''n1'' 7 (Threw ''Failed to fetch'') editedAndNew)\<lparr>isOnline := True\<rparr>)) =
     [UpdatePending ''sa'' ''A'' None False, SelectTasks] \<and>
   store (syncTasks allSucceed (\<lambda>k. 8) (Threw ''Failed to fetch'') 9
            ((deleteTask ''n1'' 7 (Threw ''Failed to fetch'') editedAndNew)\<lparr>isOnline := True\<rparr>)) ! 1 =
     (mkLocal ''n1'' ''N'' 5 True None Synced)\<lparr>updated_at := 7, last_synced_at := Some 8\<rparr> \<and>
   store (syncTasks allSucceed (\<lambda>k. 8) (Response (Some []) None) 9
            ((deleteTask ''n1'' 7 (Threw ''Failed to fetch'') editedAndNew)\<lparr>isOnline := True\<rparr>)) = []"
proof -
  let ?s = editedAndNew
  let ?s1 = "(deleteTask ''n1'' 7 (Threw ''Failed to fetch'') editedAndNew)\<lparr>isOnline := True\<rparr>"
  let ?tomb = "(mkLocal ''n1'' ''N'' 5 True None Pending)\<lparr>updated_at := 7\<rparr>"
  have st: "store ?s = [mkLocal ''a'' ''A'' 1 False (Some ''sa'') Pending,
                        mkLocal ''n1'' ''N'' 5 False None Pending]"
    and u: "user ?s = Some ''u1''" and off: "\<not> isOnline ?s" and c: "calls ?s = []"
    by (simp_all add: editedAndNew_def initial_def)
  have d: "distinct (map task_id (store ?s))"
    by (simp add: st mkLocal_def)
  have f: "findIndex (\<lambda>t. task_id t = ''n1'' \<or> server_id t = Some ''n1'') (store ?s) = Some 1"
    by (simp add: st mkLocal_def)
  have sid: "server_id (store ?s ! 1) = None"
    by (simp add: st mkLocal_def)
  have tomb: "?tomb = (store ?s ! 1)\<lparr>is_deleted := True, updated_at := 7, sync_status := Pending\<rparr>"
    by (simp add: st mkLocal_def)
  have m: "(1::nat) = length (filter (\<lambda>t. sync_status t = Pending) (take 1 (store ?s)))"
    by (simp add: st mkLocal_def)
  have f1: "fetched (Threw ''Failed to fetch'') = Inl ''Failed to fetch''"
    and f2: "fetched (Response (Some []) None) = Inr []"
    by (simp_all add: fetched_def)
  note t1 = unpushed_delete_then_sync[OF u off d f sid tomb refl m,
      where resp = "Threw ''Failed to fetch''" and net = allSucceed and clock = "\<lambda>k. 8"
        and fresp = "Threw ''Failed to fetch''" and now' = 9 and e = "''Failed to fetch''"]
  note t2 = unpushed_delete_then_sync[OF u off d f sid tomb refl m,
      where resp = "Threw ''Failed to fetch''" and net = allSucceed and clock = "\<lambda>k. 8"
        and fresp = "Response (Some []) None" and now' = 9 and rows = "[]"]
  from t1 f1 have
    "store (deleteTask ''n1'' 7 (Threw ''Failed to fetch'') ?s) = (store ?s)[1 := ?tomb]"
    "calls (deleteTask ''n1'' 7 (Threw ''Failed to fetch'') ?s) = calls ?s"
    "calls (syncTasks allSucceed (\<lambda>k. 8) (Threw ''Failed to fetch'') 9 ?s1) =
       calls ?s @ concat (map (requestFor ''u1'')
              (filter (\<lambda>t. sync_status t = Pending) (removeAt 1 (store ?s)))) @ [SelectTasks]"
    "store (syncTasks allSucceed (\<lambda>k. 8) (Threw ''Failed to fetch'') 9 ?s1) ! 1 =
       ?tomb\<lparr>sync_status := Synced, last_synced_at := Some 8\<rparr>"
    by blast+
  moreover from t2 f2 have
    "store (syncTasks allSucceed (\<lambda>k. 8) (Response (Some []) None) 9 ?s1) =
       map (toLocal Synced) []"
    by blast
  ultimately show ?thesis
    by (simp add: st c mkLocal_def removeAt_def requestFor_def truthy_def orElse_def)
qed

section \<open>Monotonicity of updated_at\<close>

lemma monotone_by_elements:
  assumes d: "distinct (map task_id xs)"
    and el: "\<forall>t'\<in>set ys.
               (\<exists>t\<in>set xs. task_id t = task_id t' \<and> updated_at t = updated_at t') \<or>
               (\<forall>t\<in>set xs. updated_at t \<le> updated_at t')"
  shows "updatedAtMonotone xs ys"
  unfolding updatedAtMonotone_def
proof (intro ballI impI)
  fix t t' assume t: "t \<in> set xs" and t': "t' \<in> set ys" and same: "task_id t' = task_id t"
  from el t' consider
    r where "r \<in> set xs" "task_id r = task_id t'" "updated_at r = updated_at t'"
    | "\<forall>t\<in>set xs. updated_at t \<le> updated_at t'"
    by blast
  then show "updated_at t \<le> updated_at t'"
  proof cases
    case 1
    with d t same have "r = t" by (metis distinct_map inj_onD)
    with 1 show ?thesis by simp
  next
    case 2
    with t show ?thesis by simp
  qed
qed

lemma drained_keys:
  "map (\<lambda>t. (task_id t, updated_at t)) (drained net clock k xs) =
   map (\<lambda>t. (task_id t, updated_at t)) xs"
  by (induction xs arbitrary: k) simp_all

lemma drained_elements:
  "\<forall>t'\<in>set (drained net clock k xs).
     \<exists>t\<in>set xs. task_id t = task_id t' \<and> updated_at t = updated_at t'"
proof
  fix t' assume "t' \<in> set (drained net clock k xs)"
  then have "(task_id t', updated_at t') \<in>
               set (map (\<lambda>t. (task_id t, updated_at t)) (drained net clock k xs))"
    by force
  then have "(task_id t', updated_at t') \<in> set (map (\<lambda>t. (task_id t, updated_at t)) xs)"
    by (simp only: drained_keys)
  then show "\<exists>t\<in>set xs. task_id t = task_id t' \<and> updated_at t = updated_at t'"
    by auto
qed

lemma create_monotone:
  assumes d: "distinct (map task_id (store s))"
    and c: "\<forall>t\<in>set (store s). updated_at t \<le> now"
  shows "updatedAtMonotone (store s) (store (createTask ttl desc uuid tc now ts resp s))"
proof (cases "user s")
  case None
  then show ?thesis
    by (auto simp: createTask_def intro!: monotone_by_elements[OF d])
next
  case (Some uid)
  show ?thesis
    apply (rule monotone_by_elements[OF d])
    using Some c
    apply (auto simp: createTask_def Let_def loadLocalTasks_def saveLocalTasks_def
        request_def toast_def split: sum.splits)
    done
qed

lemma update_monotone:
  assumes d: "distinct (map task_id (store s))"
    and c: "\<forall>t\<in>set (store s). updated_at t \<le> now"
  shows "updatedAtMonotone (store s) (store (updateTask i upd now ts resp s))"
proof -
  have el: "\<forall>t'\<in>set ((store s)[k := x]).
               (\<exists>t\<in>set (store s). task_id t = task_id t' \<and> updated_at t = updated_at t') \<or>
               (\<forall>t\<in>set (store s). updated_at t \<le> updated_at t')"
    if "updated_at x = now" for k x
  proof
    fix t' assume "t' \<in> set ((store s)[k := x])"
    then have "t' = x \<or> t' \<in> set (store s)"
      using set_update_subset_insert[of "store s" k x] by auto
    with that c show "(\<exists>t\<in>set (store s). task_id t = task_id t' \<and> updated_at t = updated_at t') \<or>
               (\<forall>t\<in>set (store s). updated_at t \<le> updated_at t')"
      by auto
  qed
  have refl: "updatedAtMonotone (store s) (store s)"
    by (rule monotone_by_elements[OF d]) auto
  show ?thesis
    using refl
    by (auto simp: updateTask_def Let_def loadLocalTasks_def saveLocalTasks_def
        request_def toast_def split: option.splits
        intro!: monotone_by_elements[OF d] el)
qed

lemma delete_monotone:
  assumes d: "distinct (map task_id (store s))"
    and c: "\<forall>t\<in>set (store s). updated_at t \<le> now"
  shows "updatedAtMonotone (store s) (store (deleteTask i now resp s))"
proof -
  have el: "\<forall>t'\<in>set ((store s)[k := x]).
               (\<exists>t\<in>set (store s). task_id t = task_id t' \<and> updated_at t = updated_at t') \<or>
               (\<forall>t\<in>set (store s). updated_at t \<le> updated_at t')"
    if "updated_at x = now" for k x
  proof
    fix t' assume "t' \<in> set ((store s)[k := x])"
    then have "t' = x \<or> t' \<in> set (store s)"
      using set_update_subset_insert[of "store s" k x] by auto
    with that c show "(\<exists>t\<in>set (store s). task_id t = task_id t' \<and> updated_at t = updated_at t') \<or>
               (\<forall>t\<in>set (store s). updated_at t \<le> updated_at t')"
      by auto
  qed
  have rm: "\<forall>t'\<in>set (removeAt k (store s)).
               (\<exists>t\<in>set (store s). task_id t = task_id t' \<and> updated_at t = updated_at t') \<or>
               (\<forall>t\<in>set (store s). updated_at t \<le> updated_at t')" for k
  proof
    fix t' assume "t' \<in> set (removeAt k (store s))"
    then have "t' \<in> set (store s)"
      by (auto simp: removeAt_def dest: in_set_takeD in_set_dropD)
    then show "(\<exists>t\<in>set (store s). task_id t = task_id t' \<and> updated_at t = updated_at t') \<or>
               (\<forall>t\<in>set (store s). updated_at t \<le> updated_at t')"
      by auto
  qed
  have refl: "updatedAtMonotone (store s) (store s)"
    by (rule monotone_by_elements[OF d]) auto
  show ?thesis
    using refl
    by (auto simp: deleteTask_def Let_def loadLocalTasks_def saveLocalTasks_def
        request_def toast_def removeAt_update split: option.splits
        intro!: monotone_by_elements[OF d] el rm)
qed

lemma pushed_monotone:
  assumes d: "distinct (map task_id (store s))"
  shows "updatedAtMonotone (store s) (store (pushed uid net clock s))"
  using drained_elements[of net clock 0 "store s"]
  by (auto simp: pushed_store[OF d] intro!: monotone_by_elements[OF d])

text \<open>
  C8, as the claim has it, fails for a pull: a successful pull stores the server's row,
  whose \<open>updated_at\<close> may be earlier than the local one.
\<close>

theorem pull_can_decrease_updated_at:
  "\<not> updatedAtMonotone (store syncedOnce)
       (store (fetchTasks (Response (Some [mkRow ''x'' ''X'' 3 None]) None) 9 syncedOnce))"
  by (simp add: updatedAtMonotone_def syncedOnce_def ev)

text \<open>
  C8, amended. On a store with one record per id, \<open>updated_at\<close> of a record never
  decreases under \<open>createTask\<close>, \<open>updateTask\<close> and \<open>deleteTask\<close>, whatever the network
  does, provided the clock reading they stamp is not earlier than the \<open>updated_at\<close> of
  the stored records, nor under a push pass (which does not touch \<open>updated_at\<close>). A
  successful pull is excluded.
\<close>

theorem updated_at_monotone_except_pull:
  assumes "distinct (map task_id (store s))"
    and "\<forall>t\<in>set (store s). updated_at t \<le> now"
  shows "updatedAtMonotone (store s) (store (createTask ttl desc uuid tc now ts cresp s)) \<and>
         updatedAtMonotone (store s) (store (updateTask i upd now us uresp s)) \<and>
         updatedAtMonotone (store s) (store (deleteTask j now dresp s)) \<and>
         updatedAtMonotone (store s) (store (pushed uid net clock s))"
  using create_monotone[OF assms] update_monotone[OF assms] delete_monotone[OF assms]
    pushed_monotone[OF assms(1)]
  by blast

theorem updated_at_monotone_except_pull_witness:
  "updatedAtMonotone (store twoPending)
     (store (createTask ''C'' None ''c'' 6 6 7 (allSucceed 0) twoPending)) \<and>
   updatedAtMonotone (store twoPending)
     (store (updateTask ''a'' \<lparr>new_title = Some ''A2'', new_description = None,
                               new_completed = None\<rparr> 6 7 (Response None None) twoPending)) \<and>
   updatedAtMonotone (store twoPending)
     (store (deleteTask ''b'' 6 (Response None None) twoPending)) \<and>
   updatedAtMonotone (store twoPending) (store (pushed ''u1'' failFirst (\<lambda>k. 7) twoPending))"
  using updated_at_monotone_except_pull
          [of twoPending 6 "''C''" None "''c''" 6 7 "allSucceed 0" "''a''"
              "\<lparr>new_title = Some ''A2'', new_description = None, new_completed = None\<rparr>"
              7 "Response None None" "''b''" "Response None None" "''u1''" failFirst "\<lambda>k. 7"]
  by (simp add: twoPending_def initial_def mkLocal_def)

section \<open>Synced records and server ids\<close>

lemma create_keeps_server_ids:
  assumes "syncedHasServerId (store s)"
  shows "syncedHasServerId (store (createTask ttl desc uuid tc tu ts resp s))"
  using assms
  by (auto simp: syncedHasServerId_def createTask_def Let_def loadLocalTasks_def
      saveLocalTasks_def request_def toast_def split: option.splits sum.splits)

lemma update_store:
  assumes "user s = Some uid"
    and "findIndex (\<lambda>t. task_id t = i \<or> server_id t = Some i) (store s) = Some k"
  shows "store (updateTask i upd now ts resp s) =
           (store s)[k :=
              (if isOnline s \<and> failed resp = None
               then (applyUpdates upd (store s ! k))
                      \<lparr>updated_at := now, sync_status := Synced, last_synced_at := Some ts\<rparr>
               else (applyUpdates upd (store s ! k))
                      \<lparr>updated_at := now, sync_status := Pending\<rparr>)]"
  using assms
  by (simp add: updateTask_def Let_def loadLocalTasks_def saveLocalTasks_def request_def
      toast_def split: option.splits)

lemma delete_store:
  assumes "user s = Some uid"
    and "findIndex (\<lambda>t. task_id t = i \<or> server_id t = Some i) (store s) = Some k"
  shows "store (deleteTask i now resp s) =
           (if isOnline s \<and> failed resp = None then removeAt k (store s)
            else (store s)[k := (store s ! k)
                   \<lparr>is_deleted := True, updated_at := now, sync_status := Pending\<rparr>])"
  using assms
  by (simp add: deleteTask_def Let_def loadLocalTasks_def saveLocalTasks_def request_def
      toast_def removeAt_update split: option.splits)

lemma update_keeps_inv:
  assumes inv: "syncedHasServerId xs"
    and x: "sync_status x = Synced \<longrightarrow> server_id x \<noteq> None"
  shows "syncedHasServerId (xs[k := x])"
  unfolding syncedHasServerId_def
proof
  fix t assume "t \<in> set (xs[k := x])"
  then have "t = x \<or> t \<in> set xs"
    using set_update_subset_insert[of xs k x] by auto
  with x inv show "sync_status t = Synced \<longrightarrow> server_id t \<noteq> None"
    by (auto simp: syncedHasServerId_def)
qed

lemma update_keeps_server_ids:
  assumes inv: "syncedHasServerId (store s)"
    and sid: "\<forall>k. findIndex (\<lambda>t. task_id t = i \<or> server_id t = Some i) (store s) = Some k \<and>
                 isOnline s \<and> failed resp = None \<longrightarrow> server_id (store s ! k) \<noteq> None"
  shows "syncedHasServerId (store (updateTask i upd now ts resp s))"
proof (cases "user s")
  case None
  with inv show ?thesis by (simp add: updateTask_def)
next
  case (Some uid)
  show ?thesis
  proof (cases "findIndex (\<lambda>t. task_id t = i \<or> server_id t = Some i) (store s)")
    case None
    with inv Some show ?thesis by (simp add: updateTask_def loadLocalTasks_def)
  next
    case (Some k)
    with sid have "isOnline s \<and> failed resp = None \<longrightarrow> server_id (store s ! k) \<noteq> None"
      by simp
    then show ?thesis
      unfolding update_store[OF \<open>user s = Some uid\<close> Some]
      by (intro update_keeps_inv[OF inv]) (simp add: applyUpdates_def)
  qed
qed

lemma delete_keeps_server_ids:
  assumes inv: "syncedHasServerId (store s)"
  shows "syncedHasServerId (store (deleteTask i now resp s))"
proof (cases "user s")
  case None
  with inv show ?thesis by (simp add: deleteTask_def)
next
  case (Some uid)
  show ?thesis
  proof (cases "findIndex (\<lambda>t. task_id t = i \<or> server_id t = Some i) (store s)")
    case None
    with inv Some show ?thesis by (simp add: deleteTask_def loadLocalTasks_def)
  next
    case (Some k)
    have rm: "syncedHasServerId (removeAt k (store s))"
      using inv
      by (auto simp: syncedHasServerId_def removeAt_def dest: in_set_takeD in_set_dropD)
    have up: "syncedHasServerId ((store s)[k := (store s ! k)
                   \<lparr>is_deleted := True, updated_at := now, sync_status := Pending\<rparr>])"
      by (intro update_keeps_inv[OF inv]) simp
    show ?thesis
      unfolding delete_store[OF \<open>user s = Some uid\<close> Some]
      using rm up by simp
  qed
qed

lemma settle_server_id:
  "settlesWithServerId resp t \<Longrightarrow>
     sync_status (settle resp now t) = Synced \<Longrightarrow> server_id (settle resp now t) \<noteq> None"
  by (auto simp: settlesWithServerId_def settle_def truthy_def
      split: response.splits option.splits if_splits)

lemma drained_keeps_server_ids:
  assumes "syncedHasServerId xs"
    and "\<forall>m<length (filter (\<lambda>t. sync_status t = Pending) xs).
           settlesWithServerId (net (k + m)) (filter (\<lambda>t. sync_status t = Pending) xs ! m)"
  shows "syncedHasServerId (drained net clock k xs)"
  using assms
proof (induction xs arbitrary: k)
  case Nil
  show ?case by (simp add: syncedHasServerId_def)
next
  case (Cons x xs)
  define F where "F = filter (\<lambda>t. sync_status t = Pending) xs"
  from Cons.prems(1) have inv: "syncedHasServerId xs"
    and x: "sync_status x = Synced \<longrightarrow> server_id x \<noteq> None"
    by (simp_all add: syncedHasServerId_def)
  show ?case
  proof (cases "sync_status x = Pending")
    case True
    with Cons.prems(2)
    have all: "\<forall>m<Suc (length F). settlesWithServerId (net (k + m)) ((x # F) ! m)"
      by (simp add: F_def)
    from all[rule_format, of 0] have "settlesWithServerId (net k) x"
      by simp
    then have hd: "sync_status (settle (net k) (clock k) x) = Synced \<longrightarrow>
                     server_id (settle (net k) (clock k) x) \<noteq> None"
      using settle_server_id by simp
    have "\<forall>m<length F. settlesWithServerId (net (Suc k + m)) (F ! m)"
    proof (intro allI impI)
      fix m assume "m < length F"
      with all[rule_format, of "Suc m"] show "settlesWithServerId (net (Suc k + m)) (F ! m)"
        by simp
    qed
    then have "syncedHasServerId (drained net clock (Suc k) xs)"
      unfolding F_def by (rule Cons.IH[OF inv])
    with hd True show ?thesis
      by (simp add: syncedHasServerId_def)
  next
    case False
    with Cons.prems(2) have "\<forall>m<length F. settlesWithServerId (net (k + m)) (F ! m)"
      by (simp add: F_def)
    then have "syncedHasServerId (drained net clock k xs)"
      unfolding F_def by (rule Cons.IH[OF inv])
    with x False show ?thesis
      by (simp add: syncedHasServerId_def)
  qed
qed

text \<open>
  C6, as the claim has it, fails: a push pass does not purge a deletion that never
  reached the server, it marks it \<open>synced\<close> with no \<open>server_id\<close>.
\<close>

theorem push_marks_unpushed_deletion_synced:
  "syncedHasServerId (store deletedBeforePush) \<and>
   \<not> syncedHasServerId
       (store (syncTasks allSucceed (\<lambda>k. 7) (Threw ''Failed to fetch'') 8 deletedBeforePush)) \<and>
   store (syncTasks allSucceed (\<lambda>k. 7) (Threw ''Failed to fetch'') 8 deletedBeforePush) =
     [(mkLocal ''n1'' ''A'' 5 True None Synced)\<lparr>last_synced_at := Some 7\<rparr>]"
  by (simp add: syncedHasServerId_def deletedBeforePush_def ev)

text \<open>
  C6, amended. The invariant "a \<open>synced\<close> record has a \<open>server_id\<close>" is preserved by
  \<open>createTask\<close> and \<open>deleteTask\<close> whatever the network does, and by a pull that fails; by
  \<open>updateTask\<close> when the record it finds has a \<open>server_id\<close> or the request is not made
  or fails; by a push pass, on a store with one record per id, when every pending
  record has a \<open>server_id\<close> or is a live record whose insert throws or returns a
  row. After a successful pull it holds exactly when every fetched row carries a
  \<open>server_id\<close>.
\<close>

theorem synced_has_server_id_preserved:
  assumes "syncedHasServerId (store s)"
  shows "syncedHasServerId (store (createTask ttl desc uuid tc tu ts cresp s)) \<and>
         syncedHasServerId (store (deleteTask j now dresp s)) \<and>
         ((\<forall>k. findIndex (\<lambda>t. task_id t = i \<or> server_id t = Some i) (store s) = Some k \<and>
                isOnline s \<and> failed uresp = None \<longrightarrow> server_id (store s ! k) \<noteq> None) \<longrightarrow>
            syncedHasServerId (store (updateTask i upd now us uresp s))) \<and>
         (distinct (map task_id (store s)) \<and>
          (\<forall>m<length (filter (\<lambda>t. sync_status t = Pending) (store s)).
              settlesWithServerId (net m) (filter (\<lambda>t. sync_status t = Pending) (store s) ! m)) \<longrightarrow>
            syncedHasServerId (store (pushed uid net clock s))) \<and>
         (fetched fresp = Inl e \<longrightarrow> syncedHasServerId (store (fetchTasks fresp now s))) \<and>
         (user s = Some uid \<and> fetched fresp = Inr rows \<longrightarrow>
            syncedHasServerId (store (fetchTasks fresp now s)) =
              (\<forall>r\<in>set rows. server_id r \<noteq> None))"
proof -
  have push: "syncedHasServerId (store (pushed uid net clock s))"
    if "distinct (map task_id (store s))"
      "\<forall>m<length (filter (\<lambda>t. sync_status t = Pending) (store s)).
          settlesWithServerId (net m) (filter (\<lambda>t. sync_status t = Pending) (store s) ! m)"
    using drained_keeps_server_ids[OF assms, where k = 0 and net = net and clock = clock] that
    by (simp add: pushed_store)
  have pull: "syncedHasServerId (store (fetchTasks fresp now s)) =
              (\<forall>r\<in>set rows. server_id r \<noteq> None)"
    if "user s = Some uid" "fetched fresp = Inr rows"
    using that by (simp add: fetchTasks_store syncedHasServerId_def toLocal_def)
  have failed_pull: "syncedHasServerId (store (fetchTasks fresp now s))"
    if "fetched fresp = Inl e"
    using that assms by (simp add: fetch_failed_store)
  show ?thesis
    apply (intro conjI impI)
    subgoal by (rule create_keeps_server_ids[OF assms])
    subgoal by (rule delete_keeps_server_ids[OF assms])
    subgoal by (rule update_keeps_server_ids[OF assms])
    subgoal by (rule push) simp_all
    subgoal by (rule failed_pull)
    subgoal by (rule pull) simp_all
    done
qed

theorem synced_has_server_id_preserved_witness:
  "syncedHasServerId (store (createTask ''C'' None ''c'' 6 6 7 (allSucceed 0) mixed)) \<and>
   syncedHasServerId (store (deleteTask ''a'' 6 (Response None None) mixed)) \<and>
   syncedHasServerId
     (store (updateTask ''a'' \<lparr>new_title = Some ''A2'', new_description = None,
                               new_completed = None\<rparr> 6 7 (Response None None) mixed)) \<and>
   syncedHasServerId (store (pushed ''u1'' allSucceed (\<lambda>k. 7) mixed)) \<and>
   syncedHasServerId (store (fetchTasks (Threw ''Failed to fetch'') 6 mixed)) \<and>
   syncedHasServerId
     (store (fetchTasks (Response (Some [mkRow ''sa'' ''A'' 1 (Some ''sa'')]) None) 6 mixed))"
proof -
  have st: "store mixed = [mkLocal ''a'' ''A'' 1 False (Some ''sa'') Synced,
                           mkLocal ''b'' ''B'' 2 False None Pending]"
    and on: "isOnline mixed" and u: "user mixed = Some ''u1''"
    by (simp_all add: mixed_def initial_def)
  have inv: "syncedHasServerId (store mixed)"
    by (simp add: st syncedHasServerId_def mkLocal_def)
  have upd: "\<forall>k. findIndex (\<lambda>t. task_id t = ''a'' \<or> server_id t = Some ''a'') (store mixed) = Some k \<and>
               isOnline mixed \<and> failed (Response None None :: unit response) = None \<longrightarrow>
               server_id (store mixed ! k) \<noteq> None"
    by (simp add: st mkLocal_def)
  have d: "distinct (map task_id (store mixed))"
    by (simp add: st mkLocal_def)
  have p: "\<forall>m<length (filter (\<lambda>t. sync_status t = Pending) (store mixed)).
             settlesWithServerId (allSucceed m) (filter (\<lambda>t. sync_status t = Pending) (store mixed) ! m)"
    by (simp add: st mkLocal_def settlesWithServerId_def allSucceed_def)
  have f1: "fetched (Threw ''Failed to fetch'') = Inl ''Failed to fetch''"
    by (simp add: fetched_def)
  have f2: "fetched (Response (Some [mkRow ''sa'' ''A'' 1 (Some ''sa'')]) None) =
              Inr [mkRow ''sa'' ''A'' 1 (Some ''sa'')]"
    by (simp add: fetched_def)
  have rows: "\<forall>r\<in>set [mkRow ''sa'' ''A'' 1 (Some ''sa'')]. server_id r \<noteq> None"
    by (simp add: mkRow_def)
  note t1 = synced_has_server_id_preserved[OF inv,
      where ttl = "''C''" and desc = None and uuid = "''c''" and tc = 6 and tu = 6 and ts = 7
        and cresp = "allSucceed 0" and j = "''a''" and now = 6 and dresp = "Response None None"
        and i = "''a''" and uresp = "Response None None"
        and upd = "\<lparr>new_title = Some ''A2'', new_description = None, new_completed = None\<rparr>"
        and us = 7 and net = allSucceed and uid = "''u1''" and clock = "\<lambda>k. 7"
        and fresp = "Threw ''Failed to fetch''" and e = "''Failed to fetch''"]
  note t2 = synced_has_server_id_preserved[OF inv,
      where now = 6 and uid = "''u1''"
        and fresp = "Response (Some [mkRow ''sa'' ''A'' 1 (Some ''sa'')]) None"
        and rows = "[mkRow ''sa'' ''A'' 1 (Some ''sa'')]"]
  from t1 upd d p f1 have
    "syncedHasServerId (store (createTask ''C'' None ''c'' 6 6 7 (allSucceed 0) mixed))"
    "syncedHasServerId (store (deleteTask ''a'' 6 (Response None None) mixed))"
    "syncedHasServerId
     (store (updateTask ''a'' \<lparr>new_title = Some ''A2'', new_description = None,
                               new_completed = None\<rparr> 6 7 (Response None None) mixed))"
    "syncedHasServerId (store (pushed ''u1'' allSucceed (\<lambda>k. 7) mixed))"
    "syncedHasServerId (store (fetchTasks (Threw ''Failed to fetch'') 6 mixed))"
    by blast+
  moreover from t2 u f2 rows have
    "syncedHasServerId
     (store (fetchTasks (Response (Some [mkRow ''sa'' ''A'' 1 (Some ''sa'')]) None) 6 mixed))"
    by blast
  ultimately show ?thesis by blast
qed

end
